theory Spec2Isabelle
  imports Main
begin

section \<open>Process-wide configuration\<close>

text \<open>
  The package reads a global \<^verbatim>\<open>C\<close> whose declaration is not part of
  \<^verbatim>\<open>common/command.go\<close>.  The fields that file reads are taken as a record:
  \<^verbatim>\<open>C.Gzip\<close>, \<^verbatim>\<open>C.Server.DefaultPort\<close> (a Go \<^verbatim>\<open>int\<close>), and the outcome of the
  authentication set-up at the top of \<^verbatim>\<open>Start\<close> (\<^verbatim>\<open>C.Auth.User\<close> and \<^verbatim>\<open>GetAuth()\<close>):
  \<open>AuthError = Some e\<close> when a user is configured and \<^verbatim>\<open>GetAuth\<close> fails with \<open>e\<close>.
\<close>

record config =
  Gzip :: bool
  DefaultPort :: int
  AuthError :: "string option"

section \<open>Strings and the library calls of the formatter\<close>

abbreviation NL :: char where
  "NL \<equiv> CHR 0x0A"

text \<open>\<^verbatim>\<open>strings.TrimRight(s, "\n")\<close> and \<^verbatim>\<open>bytes.TrimRight(data, "\n")\<close>: with a
  one-byte ASCII cutset every trailing occurrence of that byte is removed.\<close>

definition TrimRight :: "string \<Rightarrow> char \<Rightarrow> string" where
  "TrimRight s c = rev (dropWhile (\<lambda>x. x = c) (rev s))"

text \<open>\<^verbatim>\<open>strings.Contains(s, "\n")\<close> for a one-byte pattern.\<close>

definition Contains :: "string \<Rightarrow> char \<Rightarrow> bool" where
  "Contains s c = (c \<in> set s)"

text \<open>
  \<^verbatim>\<open>utf8.RuneCountInString\<close>, which \<^verbatim>\<open>fmt\<close> uses to measure a \<^verbatim>\<open>%15s\<close> operand.
  \<open>lead_size c\<close> is the length the lead byte \<open>c\<close> announces (0 for a byte that cannot
  start a sequence), \<open>accept_lo\<close>/\<open>accept_hi\<close> bound the second byte, and every later
  byte must lie in \<open>0x80..0xBF\<close>.  A malformed or truncated sequence counts its first
  byte as one rune.
\<close>

definition lead_size :: "nat \<Rightarrow> nat" where
  "lead_size c =
     (if c < 0x80 then 1
      else if c < 0xC2 then 0
      else if c < 0xE0 then 2
      else if c < 0xF0 then 3
      else if c < 0xF5 then 4
      else 0)"

definition accept_lo :: "nat \<Rightarrow> nat" where
  "accept_lo c = (if c = 0xE0 then 0xA0 else if c = 0xF0 then 0x90 else 0x80)"

definition accept_hi :: "nat \<Rightarrow> nat" where
  "accept_hi c = (if c = 0xED then 0x9F else if c = 0xF4 then 0x8F else 0xBF)"

definition is_cont :: "nat \<Rightarrow> bool" where
  "is_cont c = (0x80 \<le> c \<and> c \<le> 0xBF)"

definition rune_size :: "nat \<Rightarrow> nat list \<Rightarrow> nat" where
  "rune_size c rest =
     (let size = lead_size c in
      if size \<le> 1 then 1
      else if length rest < size - 1 then 1
      else if rest ! 0 < accept_lo c \<or> accept_hi c < rest ! 0 then 1
      else if size = 2 then 2
      else if \<not> is_cont (rest ! 1) then 1
      else if size = 3 then 3
      else if \<not> is_cont (rest ! 2) then 1
      else 4)"

text \<open>The counting loop: \<open>k\<close> is the number of bytes of the current rune still to be
  stepped over (\<^verbatim>\<open>i += size\<close>).\<close>

fun count_runes :: "nat \<Rightarrow> nat list \<Rightarrow> nat" where
  "count_runes k [] = 0"
| "count_runes (Suc k) (c # cs) = count_runes k cs"
| "count_runes 0 (c # cs) = Suc (count_runes (rune_size c cs - 1) cs)"

definition RuneCountInString :: "string \<Rightarrow> nat" where
  "RuneCountInString s = count_runes 0 (map of_char s)"

text \<open>\<^verbatim>\<open>fmt.Sprintf("%15s", h)\<close>: padded with spaces on the left up to 15 runes, never
  truncated.\<close>

definition pad15 :: "string \<Rightarrow> string" where
  "pad15 h = replicate (15 - RuneCountInString h) CHR '' '' @ h"

text \<open>The decimal digits of a natural number, as \<^verbatim>\<open>strconv\<close> formats them.\<close>

fun digits :: "nat \<Rightarrow> string" where
  "digits n = (if n < 10 then [char_of (48 + n)]
               else digits (n div 10) @ [char_of (48 + n mod 10)])"

section \<open>The gzip codec\<close>

text \<open>
  \<^verbatim>\<open>compress/gzip\<close> is an external library.  What \<^verbatim>\<open>PrettyPrint\<close> observes of it on
  a payload is either an error from \<^verbatim>\<open>gzip.NewReader\<close> (the header could not be read),
  or a reader from which \<^verbatim>\<open>ioutil.ReadAll\<close> returns the bytes decoded so far together
  with an optional error.  The codec is a parameter of the formatter.
\<close>

datatype gz_result =
    HeaderError string
  | Decoded string "string option"

type_synonym codec = "string \<Rightarrow> gz_result"

subsection \<open>The library on streams of stored blocks\<close>

text \<open>
  What \<^verbatim>\<open>compress/gzip\<close> and \<^verbatim>\<open>compress/flate\<close> of the Go standard library return
  on a payload that is one gzip member without optional header fields whose DEFLATE
  blocks are all stored (uncompressed) blocks.  Bytes are read as integers.
\<close>

definition byte :: "char \<Rightarrow> int" where
  "byte c = of_char c"

text \<open>\<^verbatim>\<open>binary.LittleEndian\<close>.\<close>

definition Uint16 :: "string \<Rightarrow> int" where
  "Uint16 b = byte (b ! 0) + 256 * byte (b ! 1)"

definition Uint32 :: "string \<Rightarrow> int" where
  "Uint32 b = byte (b ! 0) + 256 * byte (b ! 1) + 65536 * byte (b ! 2) + 16777216 * byte (b ! 3)"

text \<open>\<^verbatim>\<open>hash/crc32\<close> with the IEEE polynomial: an entry of the table is eight shifts
  of its index, and \<^verbatim>\<open>simpleUpdate\<close> folds the table over the bytes between two
  complements.\<close>

definition crc_shift :: "int \<Rightarrow> int" where
  "crc_shift c = (if odd c then Bit_Operations.xor (c div 2) 0xEDB88320 else c div 2)"

definition IEEETable :: "int \<Rightarrow> int" where
  "IEEETable i = (crc_shift ^^ 8) i"

definition simpleUpdate :: "int \<Rightarrow> string \<Rightarrow> int" where
  "simpleUpdate crc p =
     Bit_Operations.xor
       (foldl (\<lambda>c v. Bit_Operations.xor
                        (IEEETable (Bit_Operations.xor (c mod 256) (byte v))) (c div 256))
          (Bit_Operations.xor crc 0xFFFFFFFF) p)
       0xFFFFFFFF"

definition ChecksumIEEE :: "string \<Rightarrow> int" where
  "ChecksumIEEE p = simpleUpdate 0 p"

text \<open>\<^verbatim>\<open>flate.CorruptInputError(off).Error()\<close>.\<close>

definition CorruptInputError :: "nat \<Rightarrow> string" where
  "CorruptInputError off = ''flate: corrupt input before offset '' @ digits off"

text \<open>
  The block loop of the decompressor on the bytes after the header.  \<open>roffset\<close> counts
  the bytes it has consumed and \<open>acc\<close> is the output so far.  The first byte of a block
  holds \<^verbatim>\<open>BFINAL\<close> in bit 0 and \<^verbatim>\<open>BTYPE\<close> in bits 1 and 2.  A stored block
  (\<^verbatim>\<open>dataBlock\<close>, \<^verbatim>\<open>copyData\<close>) is a length, its ones-complement and that many bytes;
  type 3 is reserved; on an error the output produced so far is still handed to the
  reader.  \<open>Finished data rest\<close>: the final block ended, \<open>rest\<close> is the unread input.
  \<open>Unmodelled\<close>: the stream has a Huffman-coded block (types 1 and 2).
\<close>

datatype flate_result =
    Finished string string
  | Failed string string
  | Unmodelled

function nextBlock :: "string \<Rightarrow> nat \<Rightarrow> string \<Rightarrow> flate_result" where
  "nextBlock [] roffset acc = Failed acc ''unexpected EOF''"
| "nextBlock (c # r) roffset acc =
     (let final = odd (byte c); typ = (byte c div 2) mod 4 in
      if typ = 0 then
        (if length r < 4 then Failed acc ''unexpected EOF''
         else
           (let n = Uint16 (take 2 r); nn = Uint16 (take 2 (drop 2 r)); body = drop 4 r in
            if nn \<noteq> 65535 - n then Failed acc (CorruptInputError (roffset + 5))
            else if int (length body) < n then Failed (acc @ body) ''unexpected EOF''
            else if final then Finished (acc @ take (nat n) body) (drop (nat n) body)
            else nextBlock (drop (nat n) (drop 4 r)) (roffset + 5 + nat n)
                   (acc @ take (nat n) body)))
      else if typ = 3 then Failed acc (CorruptInputError (roffset + 1))
      else Unmodelled)"
  by pat_completeness auto
termination
  by (relation "measure (\<lambda>(p, roffset, acc). length p)") auto

text \<open>
  \<^verbatim>\<open>gzip.NewReader\<close> followed by \<^verbatim>\<open>ioutil.ReadAll\<close>.  \<^verbatim>\<open>readHeader\<close> reads ten bytes
  (\<^verbatim>\<open>io.ReadFull\<close>: \<^verbatim>\<open>EOF\<close> on no byte at all, \<^verbatim>\<open>unexpected EOF\<close> on fewer than
  ten) and checks the two magic bytes and the method.  After the final block the
  trailer is read: the CRC-32 and the length modulo \<open>2^32\<close> of the output, both
  little-endian.  The result is \<open>None\<close> where this model does not follow the library: a
  header that announces optional fields (flag bits 1 to 4), a Huffman-coded block, or
  bytes after the trailer (a further member).
\<close>

definition gunzip :: "string \<Rightarrow> gz_result option" where
  "gunzip p =
     (if p = [] then Some (HeaderError ''EOF'')
      else if length p < 10 then Some (HeaderError ''unexpected EOF'')
      else if byte (p ! 0) = 0x1F \<and> byte (p ! 1) = 0x8B \<and> byte (p ! 2) = 8 then
        (if (byte (p ! 3) div 2) mod 16 = 0 then
           (case nextBlock (drop 10 p) 0 [] of
              Unmodelled \<Rightarrow> None
            | Failed data err \<Rightarrow> Some (Decoded data (Some err))
            | Finished data rest \<Rightarrow>
                if length rest < 8 then Some (Decoded data (Some ''unexpected EOF''))
                else if Uint32 (take 4 rest) = ChecksumIEEE data
                        \<and> Uint32 (take 4 (drop 4 rest)) = int (length data) mod 4294967296
                  then (if drop 8 rest = [] then Some (Decoded data None) else None)
                else Some (Decoded data (Some ''gzip: invalid checksum'')))
         else None)
      else Some (HeaderError ''gzip: invalid header''))"

text \<open>A codec that is the library on the streams \<open>gunzip\<close> covers; \<open>other\<close> stands for
  the library on every other payload.\<close>

definition gzip_codec :: "codec \<Rightarrow> codec" where
  "gzip_codec other p = (case gunzip p of Some r \<Rightarrow> r | None \<Rightarrow> other p)"

section \<open>PrettyPrint\<close>

text \<open>The two writers \<^verbatim>\<open>wo\<close> and \<^verbatim>\<open>we\<close> and the standard logger, as the bytes
  (messages) written to them so far.\<close>

record sinks =
  wo :: string
  we :: string
  logger :: "string list"

definition wo_Write :: "string \<Rightarrow> sinks \<Rightarrow> sinks" where
  "wo_Write b s = s\<lparr>wo := wo s @ b\<rparr>"

definition we_Write :: "string \<Rightarrow> sinks \<Rightarrow> sinks" where
  "we_Write b s = s\<lparr>we := we s @ b\<rparr>"

definition log_Println :: "string \<Rightarrow> sinks \<Rightarrow> sinks" where
  "log_Println m s = s\<lparr>logger := logger s @ [m]\<rparr>"

definition error_header :: string where
  "error_header =
     ''================================= ERROR ================================='' @ [NL]"

definition output_header :: string where
  "output_header =
     ''================================= OUTPUT ================================='' @ [NL]"

text \<open>The body of \<^verbatim>\<open>for h, e := range rc.Error\<close>.  \<^verbatim>\<open>Fprintln\<close> separates its
  operands by one space and ends the line.\<close>

definition print_error :: "string \<Rightarrow> string \<Rightarrow> sinks \<Rightarrow> sinks" where
  "print_error h e s =
     (let e' = TrimRight e NL in
      if Contains e' NL
      then we_Write (h @ '' '' @ ('':'' @ [NL]) @ '' '' @ e' @ [NL]) s
      else we_Write (h @ '' '' @ '':'' @ '' '' @ e' @ [NL]) s)"

text \<open>The body of \<^verbatim>\<open>for h, o := range rc.Output\<close>.\<close>

definition print_output :: "config \<Rightarrow> codec \<Rightarrow> bool \<Rightarrow> string \<Rightarrow> string \<Rightarrow> sinks \<Rightarrow> sinks" where
  "print_output C gz noHost h out s =
     (if Gzip C then
        (case gz out of
           HeaderError err \<Rightarrow> log_Println err s
         | Decoded data rerr \<Rightarrow>
             (let s1 = (case rerr of None \<Rightarrow> s | Some err \<Rightarrow> log_Println err s);
                  data' = TrimRight data NL;
                  s2 = (if \<not> noHost
                        then (let s' = wo_Write (pad15 h @ '': '') s1
                              in if Contains data' NL then wo_Write [NL] s' else s')
                        else s1)
              in wo_Write [NL] (wo_Write data' s2)))
      else
        (let out' = TrimRight out NL;
             s2 = (if \<not> noHost
                   then (let s' = wo_Write (pad15 h @ '': '') s
                         in if Contains out' NL then wo_Write [NL] s' else s')
                   else s)
         in wo_Write [NL] (wo_Write out' s2)))"

text \<open>
  A Go map is ranged over in an order the runtime chooses.  The loops take the
  entries of the map in the order the \<^verbatim>\<open>range\<close> statement yields them, as a list of
  key/value pairs; \<^verbatim>\<open>len(m) > 0\<close> is that the list is not empty.
\<close>

primrec print_errors :: "(string \<times> string) list \<Rightarrow> sinks \<Rightarrow> sinks" where
  "print_errors [] s = s"
| "print_errors (p # ps) s = print_errors ps (print_error (fst p) (snd p) s)"

primrec print_outputs :: "config \<Rightarrow> codec \<Rightarrow> bool \<Rightarrow> (string \<times> string) list \<Rightarrow> sinks \<Rightarrow> sinks" where
  "print_outputs C gz noHost [] s = s"
| "print_outputs C gz noHost (p # ps) s =
     print_outputs C gz noHost ps (print_output C gz noHost (fst p) (snd p) s)"

definition PrettyPrint ::
  "config \<Rightarrow> codec \<Rightarrow> (string \<times> string) list \<Rightarrow> (string \<times> string) list \<Rightarrow>
   bool \<Rightarrow> bool \<Rightarrow> sinks \<Rightarrow> sinks" where
  "PrettyPrint C gz Error_items Output_items noHeader noHost s =
     (let s1 = (if Error_items \<noteq> [] \<and> \<not> noHost
                then print_errors Error_items
                       (if \<not> noHeader then we_Write error_header s else s)
                else s)
      in if Output_items \<noteq> []
         then print_outputs C gz noHost Output_items
                (if \<not> noHeader then wo_Write output_header s1 else s1)
         else s1)"

definition no_output :: sinks where
  "no_output = \<lparr>wo = [], we = [], logger = []\<rparr>"

section \<open>Example data\<close>

definition cfg_plain :: config where
  "cfg_plain = \<lparr>Gzip = False, DefaultPort = 22, AuthError = None\<rparr>"

definition cfg_gzip :: config where
  "cfg_gzip = \<lparr>Gzip = True, DefaultPort = 22, AuthError = None\<rparr>"

text \<open>
  Payloads.  \<open>gz_ok\<close> is a gzip stream of \<^verbatim>\<open>"ok\n"\<close>: the ten-byte header, one final
  stored block of three bytes, the CRC-32 \<^verbatim>\<open>0xDA160E7D\<close> and the length 3.
  \<open>gz_ok_bad_sum\<close> is the same stream with the CRC-32 field zeroed, \<open>gz_ok_cut\<close> is
  \<open>gz_ok\<close> cut off two bytes into the trailer, and \<open>not_gzip\<close> is a line of plain text.
\<close>

definition gz_header :: string where
  "gz_header = [CHR 0x1F, CHR 0x8B, CHR 0x08, CHR 0x00, CHR 0x00, CHR 0x00, CHR 0x00, CHR 0x00,
                CHR 0x00, CHR 0x03]"

definition gz_ok :: string where
  "gz_ok = gz_header @ [CHR 0x01, CHR 0x03, CHR 0x00, CHR 0xFC, CHR 0xFF] @ ''ok'' @ [NL]
             @ [CHR 0x7D, CHR 0x0E, CHR 0x16, CHR 0xDA, CHR 0x03, CHR 0x00, CHR 0x00, CHR 0x00]"

definition gz_ok_bad_sum :: string where
  "gz_ok_bad_sum = gz_header @ [CHR 0x01, CHR 0x03, CHR 0x00, CHR 0xFC, CHR 0xFF] @ ''ok'' @ [NL]
             @ [CHR 0x00, CHR 0x00, CHR 0x00, CHR 0x00, CHR 0x03, CHR 0x00, CHR 0x00, CHR 0x00]"

definition gz_ok_cut :: string where
  "gz_ok_cut = gz_header @ [CHR 0x01, CHR 0x03, CHR 0x00, CHR 0xFC, CHR 0xFF] @ ''ok'' @ [NL]
             @ [CHR 0x7D, CHR 0x0E]"

definition not_gzip :: string where
  "not_gzip = '' 10:02:11 up 3 days,  1 user'' @ [NL]"


section \<open>Properties of the formatter\<close>

lemma TrimRight_body:
  assumes "body = [] \<or> last body \<noteq> c"
  shows "TrimRight (body @ replicate k c) c = body"
proof -
  have "dropWhile (\<lambda>x. x = c) (rev body) = rev body"
  proof (cases body rule: rev_cases)
    case Nil
    then show ?thesis by simp
  next
    case (snoc ys y)
    with assms have "y \<noteq> c" by simp
    with snoc show ?thesis by simp
  qed
  then have "dropWhile (\<lambda>x. x = c) (replicate k c @ rev body) = rev body"
    by (simp add: dropWhile_append)
  then show ?thesis by (simp add: TrimRight_def)
qed

lemma TrimRight_no_trailing: "TrimRight s c = [] \<or> last (TrimRight s c) \<noteq> c"
proof (cases "dropWhile (\<lambda>x. x = c) (rev s)")
  case Nil
  then show ?thesis by (simp add: TrimRight_def)
next
  case (Cons y ys)
  then have "y \<noteq> c" using hd_dropWhile [of "\<lambda>x. x = c" "rev s"] by simp
  with Cons show ?thesis by (simp add: TrimRight_def)
qed

lemma TrimRight_decomp: "s = TrimRight s c @ replicate (length (takeWhile (\<lambda>x. x = c) (rev s))) c"
proof -
  let ?t = "takeWhile (\<lambda>x. x = c) (rev s)"
  have "\<forall>x \<in> set ?t. x = c" by (auto dest: set_takeWhileD)
  then have t: "?t = replicate (length ?t) c"
    by (metis replicate_length_same)
  have "rev s = ?t @ dropWhile (\<lambda>x. x = c) (rev s)" by simp
  then have "s = rev (dropWhile (\<lambda>x. x = c) (rev s)) @ rev ?t"
    by (metis rev_append rev_rev_ident)
  also have "rev ?t = replicate (length ?t) c"
    using t by (metis rev_replicate)
  finally show ?thesis by (simp add: TrimRight_def)
qed

lemma print_output_wo:
  "wo (print_output C gz nh h out s) = wo s @ wo (print_output C gz nh h out no_output)"
  by (simp add: print_output_def wo_Write_def log_Println_def no_output_def Let_def
      split: gz_result.splits option.splits)

lemma print_output_logger:
  "logger (print_output C gz nh h out s) = logger s @ logger (print_output C gz nh h out no_output)"
  by (simp add: print_output_def wo_Write_def log_Println_def no_output_def Let_def
      split: gz_result.splits option.splits)

lemma print_outputs_append:
  "print_outputs C gz nh (xs @ ys) s = print_outputs C gz nh ys (print_outputs C gz nh xs s)"
  by (induction xs arbitrary: s) simp_all

lemma print_outputs_wo:
  "wo (print_outputs C gz nh xs s) = wo s @ wo (print_outputs C gz nh xs no_output)"
proof (induction xs arbitrary: s)
  case Nil
  show ?case by (simp add: no_output_def)
next
  case (Cons p ps)
  have "wo (print_outputs C gz nh (p # ps) s)
        = wo (print_output C gz nh (fst p) (snd p) s) @ wo (print_outputs C gz nh ps no_output)"
    using Cons.IH [of "print_output C gz nh (fst p) (snd p) s"] by simp
  also have "\<dots> = wo s @ wo (print_output C gz nh (fst p) (snd p) no_output)
                    @ wo (print_outputs C gz nh ps no_output)"
    using print_output_wo [of C gz nh "fst p" "snd p" s] by simp
  also have "wo (print_output C gz nh (fst p) (snd p) no_output)
                    @ wo (print_outputs C gz nh ps no_output)
             = wo (print_outputs C gz nh (p # ps) no_output)"
    using Cons.IH [of "print_output C gz nh (fst p) (snd p) no_output"] by simp
  finally show ?case .
qed

lemma print_outputs_logger:
  "logger (print_outputs C gz nh xs s) = logger s @ logger (print_outputs C gz nh xs no_output)"
proof (induction xs arbitrary: s)
  case Nil
  show ?case by (simp add: no_output_def)
next
  case (Cons p ps)
  have "logger (print_outputs C gz nh (p # ps) s)
        = logger (print_output C gz nh (fst p) (snd p) s) @ logger (print_outputs C gz nh ps no_output)"
    using Cons.IH [of "print_output C gz nh (fst p) (snd p) s"] by simp
  also have "\<dots> = logger s @ logger (print_output C gz nh (fst p) (snd p) no_output)
                    @ logger (print_outputs C gz nh ps no_output)"
    using print_output_logger [of C gz nh "fst p" "snd p" s] by simp
  also have "logger (print_output C gz nh (fst p) (snd p) no_output)
                    @ logger (print_outputs C gz nh ps no_output)
             = logger (print_outputs C gz nh (p # ps) no_output)"
    using Cons.IH [of "print_output C gz nh (fst p) (snd p) no_output"] by simp
  finally show ?case .
qed

lemma print_errors_wo: "wo (print_errors es s) = wo s"
  by (induction es arbitrary: s) (simp_all add: print_error_def we_Write_def Let_def)

lemma print_errors_logger: "logger (print_errors es s) = logger s"
  by (induction es arbitrary: s) (simp_all add: print_error_def we_Write_def Let_def)

text \<open>What the output section writes for a list with one entry singled out.\<close>

lemma print_outputs_split_wo:
  "wo (print_outputs C gz nh (before @ (h, out) # after) s) =
     wo s @ wo (print_outputs C gz nh before no_output)
          @ wo (print_output C gz nh h out no_output)
          @ wo (print_outputs C gz nh after no_output)"
proof -
  have "wo (print_outputs C gz nh (before @ (h, out) # after) s) =
        wo (print_outputs C gz nh after (print_output C gz nh h out (print_outputs C gz nh before s)))"
    by (simp add: print_outputs_append)
  also have "\<dots> = wo (print_output C gz nh h out (print_outputs C gz nh before s))
                    @ wo (print_outputs C gz nh after no_output)"
    by (rule print_outputs_wo)
  also have "wo (print_output C gz nh h out (print_outputs C gz nh before s)) =
             wo (print_outputs C gz nh before s) @ wo (print_output C gz nh h out no_output)"
    by (rule print_output_wo)
  also have "wo (print_outputs C gz nh before s) = wo s @ wo (print_outputs C gz nh before no_output)"
    by (rule print_outputs_wo)
  finally show ?thesis by simp
qed

lemma print_outputs_split_logger:
  "logger (print_outputs C gz nh (before @ (h, out) # after) s) =
     logger s @ logger (print_outputs C gz nh before no_output)
          @ logger (print_output C gz nh h out no_output)
          @ logger (print_outputs C gz nh after no_output)"
proof -
  have "logger (print_outputs C gz nh (before @ (h, out) # after) s) =
        logger (print_outputs C gz nh after (print_output C gz nh h out (print_outputs C gz nh before s)))"
    by (simp add: print_outputs_append)
  also have "\<dots> = logger (print_output C gz nh h out (print_outputs C gz nh before s))
                    @ logger (print_outputs C gz nh after no_output)"
    by (rule print_outputs_logger)
  also have "logger (print_output C gz nh h out (print_outputs C gz nh before s)) =
             logger (print_outputs C gz nh before s) @ logger (print_output C gz nh h out no_output)"
    by (rule print_output_logger)
  also have "logger (print_outputs C gz nh before s) = logger s @ logger (print_outputs C gz nh before no_output)"
    by (rule print_outputs_logger)
  finally show ?thesis by simp
qed

lemma no_output_simps: "wo no_output = []" "we no_output = []" "logger no_output = []"
  by (simp_all add: no_output_def)

lemma PrettyPrint_wo:
  assumes "Output_items \<noteq> []"
  shows "wo (PrettyPrint C gz Error_items Output_items noHeader noHost s) =
     wo s @ (if noHeader then [] else output_header)
          @ wo (print_outputs C gz noHost Output_items no_output)"
proof -
  define s1 where "s1 = (if Error_items \<noteq> [] \<and> \<not> noHost
                then print_errors Error_items
                       (if \<not> noHeader then we_Write error_header s else s)
                else s)"
  define s2 where "s2 = (if \<not> noHeader then wo_Write output_header s1 else s1)"
  have "wo s1 = wo s"
    by (simp add: s1_def print_errors_wo we_Write_def)
  then have "wo s2 = wo s @ (if noHeader then [] else output_header)"
    by (simp add: s2_def wo_Write_def)
  moreover have "PrettyPrint C gz Error_items Output_items noHeader noHost s =
                 print_outputs C gz noHost Output_items s2"
    using assms by (simp add: PrettyPrint_def s1_def s2_def)
  ultimately show ?thesis
    using print_outputs_wo [of C gz noHost Output_items s2] by simp
qed

lemma PrettyPrint_logger:
  "logger (PrettyPrint C gz Error_items Output_items noHeader noHost s) =
     logger s @ logger (print_outputs C gz noHost Output_items no_output)"
proof -
  define s1 where "s1 = (if Error_items \<noteq> [] \<and> \<not> noHost
                then print_errors Error_items
                       (if \<not> noHeader then we_Write error_header s else s)
                else s)"
  define s2 where "s2 = (if \<not> noHeader then wo_Write output_header s1 else s1)"
  have "logger s1 = logger s"
    by (simp add: s1_def print_errors_logger we_Write_def)
  then have l2: "logger s2 = logger s"
    by (simp add: s2_def wo_Write_def)
  show ?thesis
  proof (cases "Output_items = []")
    case True
    then have "PrettyPrint C gz Error_items Output_items noHeader noHost s = s1"
      by (simp add: PrettyPrint_def s1_def)
    with True \<open>logger s1 = logger s\<close> show ?thesis by (simp add: no_output_simps)
  next
    case False
    then have "PrettyPrint C gz Error_items Output_items noHeader noHost s =
                 print_outputs C gz noHost Output_items s2"
      by (simp add: PrettyPrint_def s1_def s2_def)
    with l2 show ?thesis
      using print_outputs_logger [of C gz noHost Output_items s2] by simp
  qed
qed


lemma RuneCount_h1: "RuneCountInString ''h1'' = 2"
  by (simp add: RuneCountInString_def rune_size_def lead_size_def)

lemma RuneCount_h0_h2: "RuneCountInString ''h0'' = 2" "RuneCountInString ''h2'' = 2"
  by (simp_all add: RuneCountInString_def rune_size_def lead_size_def)

text \<open>The library on the example payloads.\<close>

lemma gunzip_gz_ok: "gunzip gz_ok = Some (Decoded (''ok'' @ [NL]) None)"
  by code_simp

lemma gunzip_gz_ok_bad_sum:
  "gunzip gz_ok_bad_sum = Some (Decoded (''ok'' @ [NL]) (Some ''gzip: invalid checksum''))"
  by code_simp

lemma gunzip_gz_ok_cut:
  "gunzip gz_ok_cut = Some (Decoded (''ok'' @ [NL]) (Some ''unexpected EOF''))"
  by code_simp

lemma gunzip_not_gzip: "gunzip not_gzip = Some (HeaderError ''gzip: invalid header'')"
  by code_simp

lemma gzip_codec_examples:
  "gzip_codec other gz_ok = Decoded (''ok'' @ [NL]) None"
  "gzip_codec other gz_ok_bad_sum = Decoded (''ok'' @ [NL]) (Some ''gzip: invalid checksum'')"
  "gzip_codec other gz_ok_cut = Decoded (''ok'' @ [NL]) (Some ''unexpected EOF'')"
  "gzip_codec other not_gzip = HeaderError ''gzip: invalid header''"
  by (simp_all add: gzip_codec_def gunzip_gz_ok gunzip_gz_ok_bad_sum gunzip_gz_ok_cut
      gunzip_not_gzip)

lemma print_output_gz_ok:
  "print_output cfg_gzip (gzip_codec other) False h gz_ok no_output =
     \<lparr>wo = pad15 h @ '': ok'' @ [NL], we = [], logger = []\<rparr>"
  by (simp add: print_output_def cfg_gzip_def gzip_codec_examples TrimRight_def Contains_def
      wo_Write_def no_output_def)

text \<open>
  The branch after \<^verbatim>\<open>gzip.NewReader\<close>.  With compression enabled, a payload on which
  \<^verbatim>\<open>gzip.NewReader\<close> fails is logged and contributes nothing to \<^verbatim>\<open>wo\<close>; the entries
  before and after it are rendered as they are without it.
\<close>

lemma header_failure_skips_host:
  assumes "Gzip C" and "gz out = HeaderError err"
  shows "wo (PrettyPrint C gz Error_items (before @ (h, out) # after) noHeader noHost s) =
           wo s @ (if noHeader then [] else output_header)
             @ wo (print_outputs C gz noHost before no_output)
             @ wo (print_outputs C gz noHost after no_output)
         \<and> logger (PrettyPrint C gz Error_items (before @ (h, out) # after) noHeader noHost s) =
           logger s @ logger (print_outputs C gz noHost before no_output) @ [err]
             @ logger (print_outputs C gz noHost after no_output)
         \<and> (before @ after \<noteq> [] \<longrightarrow>
             wo (PrettyPrint C gz Error_items (before @ (h, out) # after) noHeader noHost s) =
             wo (PrettyPrint C gz Error_items (before @ after) noHeader noHost s))"
proof -
  have "print_output C gz noHost h out no_output = log_Println err no_output"
    using assms by (simp add: print_output_def)
  then have w: "wo (print_output C gz noHost h out no_output) = []"
    and l: "logger (print_output C gz noHost h out no_output) = [err]"
    by (simp_all add: log_Println_def no_output_simps)
  have 1: "wo (PrettyPrint C gz Error_items (before @ (h, out) # after) noHeader noHost s) =
           wo s @ (if noHeader then [] else output_header)
             @ wo (print_outputs C gz noHost before no_output)
             @ wo (print_outputs C gz noHost after no_output)"
    using w by (simp add: PrettyPrint_wo print_outputs_split_wo no_output_simps)
  have 2: "logger (PrettyPrint C gz Error_items (before @ (h, out) # after) noHeader noHost s) =
           logger s @ logger (print_outputs C gz noHost before no_output) @ [err]
             @ logger (print_outputs C gz noHost after no_output)"
    using l by (simp add: PrettyPrint_logger print_outputs_split_logger no_output_simps)
  have 3: "wo (PrettyPrint C gz Error_items (before @ after) noHeader noHost s) =
           wo s @ (if noHeader then [] else output_header)
             @ wo (print_outputs C gz noHost before no_output)
             @ wo (print_outputs C gz noHost after no_output)"
    if "before @ after \<noteq> []"
    using that PrettyPrint_wo [of "before @ after" C gz Error_items noHeader noHost s]
      print_outputs_wo [of C gz noHost after "print_outputs C gz noHost before no_output"]
    by (simp add: print_outputs_append)
  from 1 2 3 show ?thesis by simp
qed


text \<open>
  Claim C8.  With compression disabled and host labels enabled, the entry of a host
  whose output is \<open>body\<close> followed by any number of newlines (\<open>body\<close> itself not ending
  in one) contributes to \<^verbatim>\<open>wo\<close> exactly: the host right-aligned in 15 columns, a colon
  and a space, a newline if \<open>body\<close> contains one, \<open>body\<close>, and one newline.  It stands
  after the optional section header and the lines of the entries ranged over before it,
  and before the lines of those ranged over after it.
\<close>

theorem C8_plain_output_line:
  assumes "\<not> Gzip C" and "body = [] \<or> last body \<noteq> NL"
  shows "wo (PrettyPrint C gz Error_items (before @ (h, body @ replicate k NL) # after)
               noHeader False s) =
         wo s @ (if noHeader then [] else output_header)
           @ wo (print_outputs C gz False before no_output)
           @ (replicate (15 - RuneCountInString h) CHR '' '' @ h @ '': ''
                @ (if NL \<in> set body then [NL] else []) @ body @ [NL])
           @ wo (print_outputs C gz False after no_output)"
proof -
  have "wo (print_output C gz False h (body @ replicate k NL) no_output) =
        replicate (15 - RuneCountInString h) CHR '' '' @ h @ '': ''
          @ (if NL \<in> set body then [NL] else []) @ body @ [NL]"
    using assms
    by (simp add: print_output_def TrimRight_body Contains_def pad15_def wo_Write_def
        no_output_def Let_def)
  then show ?thesis
    by (simp add: PrettyPrint_wo print_outputs_split_wo no_output_simps)
qed

theorem C8_plain_output_line_witness:
  "\<forall>other. \<not> Gzip cfg_plain \<and> (''hello'' = [] \<or> last ''hello'' \<noteq> NL) \<and>
     wo (PrettyPrint cfg_plain (gzip_codec other) [] [(''h1'', ''hello'' @ [NL])] True False
           no_output)
       = ''             h1: hello'' @ [NL]"
proof -
  have g: "\<not> Gzip cfg_plain" by (simp add: cfg_plain_def)
  have b: "''hello'' = [] \<or> last ''hello'' \<noteq> NL" by simp
  have "wo (PrettyPrint cfg_plain (gzip_codec other) [] [(''h1'', ''hello'' @ [NL])] True False
              no_output)
          = ''             h1: hello'' @ [NL]" for other
    using C8_plain_output_line [OF g b, of "gzip_codec other" "[]" "[]" "''h1''" 1 "[]" True
        no_output]
    by (simp add: no_output_simps RuneCount_h1 eval_nat_numeral)
  with g b show ?thesis by simp
qed

text \<open>
  Claim C9.  With compression enabled, a host whose stored payload is not a valid gzip
  stream is to be logged and left out of the report.  The payload \<open>gz_ok_bad_sum\<close> is
  not a valid gzip stream: its header is read, its body decodes to \<^verbatim>\<open>"ok\n"\<close>, and
  \<^verbatim>\<open>ioutil.ReadAll\<close> fails on the checksum.  \<^verbatim>\<open>PrettyPrint\<close> logs that failure and
  renders the line of the host all the same: the branch after \<^verbatim>\<open>ioutil.ReadAll\<close> has
  no \<^verbatim>\<open>continue\<close>, where the branch after \<^verbatim>\<open>gzip.NewReader\<close> has one
  (\<open>header_failure_skips_host\<close>).
\<close>

theorem C9_invalid_stream_is_rendered:
  "gzip_codec other gz_ok_bad_sum = Decoded (''ok'' @ [NL]) (Some ''gzip: invalid checksum'') \<and>
   PrettyPrint cfg_gzip (gzip_codec other) [] [(''h1'', gz_ok_bad_sum)] True False no_output =
     \<lparr>wo = ''             h1: ok'' @ [NL], we = [], logger = [''gzip: invalid checksum'']\<rparr>"
  by (simp add: PrettyPrint_def print_output_def cfg_gzip_def gzip_codec_examples TrimRight_def
      Contains_def wo_Write_def log_Println_def no_output_def pad15_def RuneCount_h1
      eval_nat_numeral)

text \<open>
  Claim C10.  With compression enabled, a payload whose header is read and whose body
  then fails with \<open>err\<close> after \<open>data\<close> was decoded is logged and still rendered: the
  label (unless suppressed), \<open>data\<close> without its trailing newlines, one newline.
\<close>

theorem C10_body_failure_still_renders:
  assumes "Gzip C" and "gz out = Decoded data (Some err)"
  shows "wo (PrettyPrint C gz Error_items (before @ (h, out) # after) noHeader noHost s) =
           wo s @ (if noHeader then [] else output_header)
             @ wo (print_outputs C gz noHost before no_output)
             @ ((if noHost then []
                 else pad15 h @ '': '' @ (if NL \<in> set (TrimRight data NL) then [NL] else []))
                @ TrimRight data NL @ [NL])
             @ wo (print_outputs C gz noHost after no_output)
         \<and> logger (PrettyPrint C gz Error_items (before @ (h, out) # after) noHeader noHost s) =
           logger s @ logger (print_outputs C gz noHost before no_output) @ [err]
             @ logger (print_outputs C gz noHost after no_output)"
proof -
  have w: "wo (print_output C gz noHost h out no_output) =
           (if noHost then []
            else pad15 h @ '': '' @ (if NL \<in> set (TrimRight data NL) then [NL] else []))
           @ TrimRight data NL @ [NL]"
    using assms
    by (simp add: print_output_def Contains_def wo_Write_def log_Println_def no_output_def Let_def)
  have l: "logger (print_output C gz noHost h out no_output) = [err]"
    using assms
    by (simp add: print_output_def Contains_def wo_Write_def log_Println_def no_output_def Let_def)
  show ?thesis
    using w l
    by (simp add: PrettyPrint_wo PrettyPrint_logger print_outputs_split_wo
        print_outputs_split_logger no_output_simps)
qed

theorem C10_body_failure_still_renders_witness:
  "\<forall>other. Gzip cfg_gzip \<and>
     gzip_codec other gz_ok_cut = Decoded (''ok'' @ [NL]) (Some ''unexpected EOF'') \<and>
     wo (PrettyPrint cfg_gzip (gzip_codec other) [] ([] @ (''h1'', gz_ok_cut) # [(''h2'', gz_ok)])
           True False no_output)
       = (''             h1: ok'' @ [NL]) @ (''             h2: ok'' @ [NL]) \<and>
     logger (PrettyPrint cfg_gzip (gzip_codec other) [] ([] @ (''h1'', gz_ok_cut) # [(''h2'', gz_ok)])
           True False no_output)
       = [''unexpected EOF'']"
proof -
  have g: "Gzip cfg_gzip" by (simp add: cfg_gzip_def)
  have "wo (PrettyPrint cfg_gzip (gzip_codec other) [] ([] @ (''h1'', gz_ok_cut) # [(''h2'', gz_ok)])
           True False no_output)
       = (''             h1: ok'' @ [NL]) @ (''             h2: ok'' @ [NL]) \<and>
     logger (PrettyPrint cfg_gzip (gzip_codec other) [] ([] @ (''h1'', gz_ok_cut) # [(''h2'', gz_ok)])
           True False no_output)
       = [''unexpected EOF'']" for other
    using g gzip_codec_examples(3) [of other]
      C10_body_failure_still_renders [where C = cfg_gzip and gz = "gzip_codec other"
        and out = gz_ok_cut and data = "''ok'' @ [NL]" and err = "''unexpected EOF''"
        and Error_items = "[]" and before = "[]" and h = "''h1''"
        and after = "[(''h2'', gz_ok)]" and noHeader = True and noHost = False
        and s = no_output]
    by (simp add: no_output_simps print_output_gz_ok pad15_def RuneCount_h0_h2 RuneCount_h1
        TrimRight_def eval_nat_numeral)
  with g gzip_codec_examples(3) show ?thesis by simp
qed

end
